theory Spec2Isabelle
  imports Complex_Main "HOL-Library.Char_ord" "HOL-Library.List_Lexorder"
begin

section \<open>Scalars and errors\<close>

text \<open>
  The Python exceptions that the modelled code can raise.
\<close>

datatype error = KeyError | ZeroDivisionError | ValueError | TypeError | IndexError

text \<open>
  A scalar as the statistic functions return it. Finite values are kept exact (a Python
  \<open>int\<close> and a finite float are both \<open>Fin\<close>, without rounding); the three other
  constructors are the non-finite values that numpy and pandas produce instead of raising
  when a float is divided by zero.
\<close>

datatype num = Fin real | PInf | NInf | NaN

text \<open>
  Division of numpy scalars and of pandas columns (\<open>/\<close> on \<open>np.float64\<close>, \<open>Series\<close>
  and \<open>DataFrame\<close>): a zero divisor gives an infinity or NaN, never an exception.
  Signed zeros are not distinguished.
\<close>

fun fdiv :: "num \<Rightarrow> num \<Rightarrow> num" where
  "fdiv (Fin a) (Fin b) =
     (if b = 0 then (if a = 0 then NaN else if 0 < a then PInf else NInf) else Fin (a / b))"
| "fdiv NaN y = NaN"
| "fdiv x NaN = NaN"
| "fdiv (Fin a) PInf = Fin 0"
| "fdiv (Fin a) NInf = Fin 0"
| "fdiv PInf (Fin b) = (if b < 0 then NInf else PInf)"
| "fdiv NInf (Fin b) = (if b < 0 then PInf else NInf)"
| "fdiv PInf PInf = NaN"
| "fdiv PInf NInf = NaN"
| "fdiv NInf PInf = NaN"
| "fdiv NInf NInf = NaN"

section \<open>Statistic formulas (diversity_metrics.py)\<close>

text \<open>
  A categorical sample (a \<open>pd.Series\<close> of labels) is the list of its labels, without
  missing values. \<open>x.value_counts()\<close> pairs every distinct label with its number of
  occurrences. pandas orders the pairs by decreasing count, and for a categorical dtype
  adds the unobserved categories with count 0; the formulas below only take lengths and
  sums after filtering by a positive bound, so neither changes any result.
\<close>

definition value_counts :: "'a list \<Rightarrow> ('a \<times> nat) list" where
  "value_counts x = map (\<lambda>c. (c, count_list x c)) (remdups x)"

text \<open>\<open>count_unique(x) = len(x.unique())\<close>\<close>

definition count_unique :: "'a list \<Rightarrow> error + num" where
  "count_unique x = Inr (Fin (real (length (remdups x))))"

text \<open>
  \<open>count_unique_norm(x) = len(x.unique())/len(x)\<close>: a division of two Python ints,
  which raises on a zero divisor.
\<close>

definition count_unique_norm :: "'a list \<Rightarrow> error + num" where
  "count_unique_norm x =
     (if length x = 0 then Inl ZeroDivisionError
      else Inr (Fin (real (length (remdups x)) / real (length x))))"

text \<open>\<open>count_gt5(x) = len(x.value_counts().loc[lambda c: c>5])\<close>\<close>

definition count_gt5 :: "'a list \<Rightarrow> error + num" where
  "count_gt5 x = Inr (Fin (real (length (filter (\<lambda>(c, n). 5 < n) (value_counts x)))))"

text \<open>
  \<open>inverse_simpsons_index(x) = 1/np.sum((x.value_counts().loc[lambda c: c>0]/len(x))**2)\<close>.
  The inner division is elementwise on a Series, so it only happens for a label that
  occurs, when \<open>len(x)\<close> is positive. The outer division is by a numpy float.
\<close>

definition inverse_simpsons_index :: "'a list \<Rightarrow> error + num" where
  "inverse_simpsons_index x =
     Inr (fdiv (Fin 1)
       (Fin (sum_list (map (\<lambda>(c, n). (real n / real (length x))\<^sup>2)
                           (filter (\<lambda>(c, n). 0 < n) (value_counts x))))))"

text \<open>
  \<open>shannon_index\<close>: the proportions are the positive counts over their sum, and the
  index is \<open>(-1) * (p * log2 p).sum()\<close>.
\<close>

definition shannon_index :: "'a list \<Rightarrow> error + num" where
  "shannon_index x =
     (let cateogory_counts = filter (\<lambda>(c, n). 0 < n) (value_counts x);
          total = sum_list (map snd cateogory_counts);
          p = map (\<lambda>(c, n). real n / real total) cateogory_counts
      in Inr (Fin ((- 1) * sum_list (map (\<lambda>q. q * log 2 q) p))))"

section \<open>Tables\<close>

text \<open>
  Running a list of computations that may raise: the first error stops the run, as the
  exception would.
\<close>

definition bind_res :: "error + 'a \<Rightarrow> ('a \<Rightarrow> error + 'b) \<Rightarrow> error + 'b" where
  "bind_res m f = (case m of Inl e \<Rightarrow> Inl e | Inr v \<Rightarrow> f v)"

fun sequence_res :: "(error + 'a) list \<Rightarrow> error + 'a list" where
  "sequence_res [] = Inr []"
| "sequence_res (m # ms) =
     (case m of
        Inl e \<Rightarrow> Inl e
      | Inr v \<Rightarrow> (case sequence_res ms of Inl e \<Rightarrow> Inl e | Inr vs \<Rightarrow> Inr (v # vs)))"

text \<open>
  The observation table (a \<open>pd.DataFrame\<close> the functions read): its column names, and
  one entry per row made of the row's index label and the row's cells by column name. A
  cell is only ever read after its column name was found in \<open>columns\<close>.
\<close>

record ('i, 'a) dataframe =
  columns :: "string list"
  rows :: "('i \<times> (string \<Rightarrow> 'a)) list"

text \<open>
  The tables the functions build: the column names, and per row the index label with the
  row's values in the order of the columns.
\<close>

record ('i, 'v) table =
  tcolumns :: "string list"
  trows :: "('i \<times> 'v list) list"

text \<open>\<open>df[c]\<close>: the cells of one column, \<open>KeyError\<close> for an unknown name.\<close>

definition getcol :: "('i, 'a) dataframe \<Rightarrow> string \<Rightarrow> error + 'a list" where
  "getcol df c =
     (if c \<in> set (columns df) then Inr (map (\<lambda>(i, r). r c) (rows df)) else Inl KeyError)"

text \<open>\<open>t.loc[i, c]\<close> on a built table: the value of row \<open>i\<close> in column \<open>c\<close>.\<close>

definition loc :: "('i, 'v) table \<Rightarrow> 'i \<Rightarrow> string \<Rightarrow> 'v option" where
  "loc t i c =
     (case map_of (trows t) i of
        None \<Rightarrow> None
      | Some vs \<Rightarrow> map_of (zip (tcolumns t) vs) c)"

text \<open>
  \<open>rows.groupby(key, observed=True)\<close>: the distinct key values that occur, in sorted
  order, each with its rows in their original order.
\<close>

definition groupby ::
  "('i \<times> (string \<Rightarrow> 'a::linorder)) list \<Rightarrow> string \<Rightarrow> ('a \<times> ('i \<times> (string \<Rightarrow> 'a)) list) list"
where
  "groupby rs key =
     map (\<lambda>g. (g, filter (\<lambda>(i, r). r key = g) rs))
         (sort (remdups (map (\<lambda>(i, r). r key) rs)))"

section \<open>Region metric engine (diversity_metrics.py)\<close>

text \<open>
  \<open>get_region_metric\<close>: drop the rows of an excluded region, group the rest by region,
  apply \<open>function\<close> to every (region, level) column, name the columns
  \<open>metric_name_level\<close>, and when \<open>norm_fcn\<close> is given divide every column by
  \<open>norm_fcn\<close> of the same column of \<open>obs_ccf\<close> itself.
\<close>

definition get_region_metric ::
  "('i, 'a::linorder) dataframe \<Rightarrow> ('a list \<Rightarrow> error + num) \<Rightarrow> string \<Rightarrow> string \<Rightarrow> 'a list
     \<Rightarrow> ('a list \<Rightarrow> error + num) option \<Rightarrow> string list \<Rightarrow> error + ('a, num) table"
where
  "get_region_metric obs_ccf function metric_name ccf_label exclude norm_fcn levels =
     (if ccf_label \<notin> set (columns obs_ccf) then Inl KeyError
      else if \<not> set levels \<subseteq> set (columns obs_ccf) then Inl KeyError
      else
        case sequence_res
               (map (\<lambda>(reg, grp).
                       map_sum id (Pair reg)
                         (sequence_res (map (\<lambda>l. function (map (\<lambda>(i, r). r l) grp)) levels)))
                    (groupby (filter (\<lambda>(i, r). r ccf_label \<notin> set exclude) (rows obs_ccf))
                             ccf_label))
        of
          Inl e \<Rightarrow> Inl e
        | Inr metric \<Rightarrow>
            (case norm_fcn of
               None \<Rightarrow>
                 Inr \<lparr>tcolumns = map (\<lambda>x. metric_name @ ''_'' @ x) levels, trows = metric\<rparr>
             | Some g \<Rightarrow>
                 (case sequence_res (map (\<lambda>l. g (map (\<lambda>(i, r). r l) (rows obs_ccf))) levels) of
                    Inl e \<Rightarrow> Inl e
                  | Inr norms \<Rightarrow>
                      Inr \<lparr>tcolumns = map (\<lambda>x. metric_name @ ''_'' @ x) levels,
                           trows = map (\<lambda>(reg, vs). (reg, map2 fdiv vs norms)) metric\<rparr>)))"

text \<open>
  \<open>pd.concat(tables, axis=1)\<close>: the columns side by side over the union of the row
  labels, a table without a label contributing NaN there.
\<close>

definition concat_axis1 :: "('i, num) table list \<Rightarrow> ('i, num) table" where
  "concat_axis1 ts =
     \<lparr>tcolumns = concat (map tcolumns ts),
      trows = map (\<lambda>i. (i, concat (map (\<lambda>t. case map_of (trows t) i of
                                                Some vs \<Rightarrow> vs
                                              | None \<Rightarrow> replicate (length (tcolumns t)) NaN) ts)))
                  (remdups (concat (map (\<lambda>t. map fst (trows t)) ts)))\<rparr>"

text \<open>The default arguments of \<open>get_region_metric\<close>.\<close>

definition default_exclude :: "string list" where
  "default_exclude = [''unassigned'', ''TH-unassigned'']"

definition default_levels :: "string list" where
  "default_levels = [''cluster'', ''supertype'', ''subclass'']"

text \<open>
  \<open>calculate_diversity_metrics\<close>: the seven metric tables side by side, then the column
  \<open>count_cells\<close> assigned from \<open>obs_ccf[ccf_label].value_counts()\<close>, aligned on the
  region.
\<close>

definition calculate_diversity_metrics ::
  "('i, string) dataframe \<Rightarrow> string \<Rightarrow> error + (string, num) table"
where
  "calculate_diversity_metrics obs_ccf ccf_label =
     bind_res
       (sequence_res
          [get_region_metric obs_ccf count_unique ''count'' ccf_label
             default_exclude None default_levels,
           get_region_metric obs_ccf count_unique ''frac'' ccf_label
             default_exclude (Some count_unique) default_levels,
           get_region_metric obs_ccf count_unique_norm ''count_norm2cells'' ccf_label
             default_exclude None default_levels,
           get_region_metric obs_ccf count_gt5 ''count_gt5'' ccf_label
             default_exclude None default_levels,
           get_region_metric obs_ccf count_gt5 ''frac_gt5'' ccf_label
             default_exclude (Some count_unique) default_levels,
           get_region_metric obs_ccf inverse_simpsons_index ''inverse_simpsons'' ccf_label
             default_exclude None default_levels,
           get_region_metric obs_ccf shannon_index ''shannon_index'' ccf_label
             default_exclude None default_levels])
       (\<lambda>tables.
          bind_res (getcol obs_ccf ccf_label)
            (\<lambda>region_col.
               let ccf_metrics_df = concat_axis1 tables
               in Inr \<lparr>tcolumns = tcolumns ccf_metrics_df @ [''count_cells''],
                       trows = map (\<lambda>(reg, vs).
                                      (reg, vs @ [case map_of (value_counts region_col) reg of
                                                    Some n \<Rightarrow> Fin (real n)
                                                  | None \<Rightarrow> NaN]))
                                   (trows ccf_metrics_df)\<rparr>))"

section \<open>Local metric engine (diversity_metrics.py)\<close>

text \<open>\<open>xs[i]\<close> and \<open>obs.iloc[positions]\<close>: \<open>IndexError\<close> out of range.\<close>

definition getitem :: "'b list \<Rightarrow> nat \<Rightarrow> error + 'b" where
  "getitem xs i = (if i < length xs then Inr (xs ! i) else Inl IndexError)"

definition iloc :: "('i, 'a) dataframe \<Rightarrow> nat list \<Rightarrow> error + ('i \<times> (string \<Rightarrow> 'a)) list" where
  "iloc obs positions = sequence_res (map (getitem (rows obs)) positions)"

text \<open>
  \<open>calculate_function_locally\<close>: \<open>obs.iloc[neighbors[i]][levels].aggregate(function)\<close>,
  the function applied to each level column of the rows at the positions
  \<open>neighbors[i]\<close>.
\<close>

definition calculate_function_locally ::
  "nat \<Rightarrow> ('i, 'a) dataframe \<Rightarrow> nat list list \<Rightarrow> string list \<Rightarrow> ('a list \<Rightarrow> error + num)
     \<Rightarrow> error + num list"
where
  "calculate_function_locally i obs neighbors levels function =
     bind_res (getitem neighbors i)
       (\<lambda>positions.
          bind_res (iloc obs positions)
            (\<lambda>sub.
               if \<not> set levels \<subseteq> set (columns obs) then Inl KeyError
               else sequence_res (map (\<lambda>l. function (map (\<lambda>(i, r). r l) sub)) levels)))"

text \<open>
  \<open>calculate_local_diversity_metric\<close>. The nearest-neighbour search of scikit-learn is
  the parameter \<open>kneighbors\<close>: from the coordinate rows and \<open>n_neighbors\<close> it gives, for
  each row position, the positions of its neighbours, or raises. \<open>Pool.map\<close> returns
  the results in the order of its inputs, as \<open>map\<close> does, and a worker's exception is
  raised again in the caller.
\<close>

definition calculate_local_diversity_metric ::
  "('a list list \<Rightarrow> nat \<Rightarrow> error + nat list list) \<Rightarrow> ('i, 'a) dataframe
     \<Rightarrow> ('a list \<Rightarrow> error + num) \<Rightarrow> string \<Rightarrow> nat \<Rightarrow> string list \<Rightarrow> error + ('i, num) table"
where
  "calculate_local_diversity_metric kneighbors obs_ccf function metric_name n_neighbors levels =
     (let neigh_coords = map (\<lambda>x. x @ ''_ccf'') [''x'', ''y'', ''z'']
      in if \<not> set neigh_coords \<subseteq> set (columns obs_ccf) then Inl KeyError
         else
           bind_res (kneighbors (map (\<lambda>(i, r). map r neigh_coords) (rows obs_ccf)) n_neighbors)
             (\<lambda>neighbors.
                bind_res
                  (sequence_res
                     (map (\<lambda>i. calculate_function_locally i obs_ccf neighbors levels function)
                          [0..<length (rows obs_ccf)]))
                  (\<lambda>results.
                     Inr \<lparr>tcolumns = map (\<lambda>x. ''local'' @ ''_'' @ metric_name @ ''_'' @ x) levels,
                          trows = zip (map fst (rows obs_ccf)) results\<rparr>)))"

section \<open>Proportion aggregation (diversity_plots.py)\<close>

text \<open>\<open>a <= b\<close> on floats: false as soon as one side is NaN.\<close>

fun num_le :: "num \<Rightarrow> num \<Rightarrow> bool" where
  "num_le NaN y = False"
| "num_le x NaN = False"
| "num_le NInf y = True"
| "num_le x PInf = True"
| "num_le (Fin a) (Fin b) = (a \<le> b)"
| "num_le (Fin a) NInf = False"
| "num_le PInf y = False"

text \<open>
  \<open>calculate_level_proportions\<close>. \<open>counts_df\<close> has one row per region that occurs and
  one column per category that occurs, \<open>count reg c\<close> being the number of rows of that
  pair. A cell goes to \<open>other\<close> when its count is at most \<open>min_count\<close>, or, without
  \<open>min_count\<close>, when its fraction of the region's total is at most \<open>min_frac\<close>.
  \<open>counts_df[to_other].sum(axis=1)\<close> adds up the cells that go, and
  \<open>counts_df[~to_other]\<close> followed by \<open>fillna(0)\<close> leaves 0 in their place. The join
  raises when a category is already called \<open>other\<close>. A column is kept when it is not 0
  in some region, and each row is divided by its sum. A column is a name with its value
  in each region.
\<close>

definition calculate_level_proportions ::
  "('i, string) dataframe \<Rightarrow> string \<Rightarrow> string \<Rightarrow> real \<Rightarrow> int option \<Rightarrow> error + (string, num) table"
where
  "calculate_level_proportions obs taxonomy_level ccf_label min_frac min_count =
     (if \<not> {ccf_label, taxonomy_level} \<subseteq> set (columns obs) then Inl KeyError
      else
        let regions = sort (remdups (map (\<lambda>(i, r). r ccf_label) (rows obs)));
            cats = sort (remdups (map (\<lambda>(i, r). r taxonomy_level) (rows obs)));
            count = (\<lambda>reg c. length (filter (\<lambda>(i, r). r ccf_label = reg \<and> r taxonomy_level = c)
                                             (rows obs)));
            total_counts = (\<lambda>reg. sum_list (map (count reg) cats));
            to_other = (\<lambda>reg c.
               case min_count of
                 Some m \<Rightarrow> int (count reg c) \<le> m
               | None \<Rightarrow> num_le (fdiv (Fin (real (count reg c))) (Fin (real (total_counts reg))))
                                (Fin min_frac));
            other_col_df = (\<lambda>reg. sum_list (map (count reg) (filter (to_other reg) cats)));
            counts_df = map (\<lambda>c. (c, \<lambda>reg. if to_other reg c then 0 else count reg c)) cats
        in if ''other'' \<in> set cats then Inl ValueError
           else
             let joined = counts_df @ [(''other'', other_col_df)];
                 nonzero = filter (\<lambda>(c, col). \<exists>reg\<in>set regions. col reg \<noteq> 0) joined
             in Inr \<lparr>tcolumns = map fst nonzero,
                     trows = map (\<lambda>reg.
                                    (reg, map (\<lambda>(c, col).
                                                 fdiv (Fin (real (col reg)))
                                                      (Fin (real (sum_list (map (\<lambda>(c, col). col reg)
                                                                                nonzero)))))
                                              nonzero))
                                 regions\<rparr>)"

section \<open>The palette of the stacked bar plot (diversity_plots.py)\<close>

text \<open>
  A palette is a dictionary from category to colour, or a plain list of colours.
  Assigning to a string key works on the dictionary and raises \<open>TypeError\<close> on the list.
\<close>

datatype palette = PaletteDict "string \<rightharpoonup> string" | PaletteList "string list"

fun setitem :: "palette \<Rightarrow> string \<Rightarrow> string \<Rightarrow> error + palette" where
  "setitem (PaletteDict d) k v = Inr (PaletteDict (d(k \<mapsto> v)))"
| "setitem (PaletteList cs) k v = Inl TypeError"

text \<open>
  The first statements of \<open>barplot_stacked_proportions\<close>, which set the palette: with no
  palette given, \<open>abc.get_taxonomy_palette(taxonomy_level)\<close> is asked, and its
  \<open>ValueError\<close> is answered with \<open>glasbey_light\<close>; then \<open>palette['other']\<close> is assigned.
  The palette provider \<open>get_taxonomy_palette\<close> is a parameter. \<open>glasbey_light\<close> is the
  name colorcet gives to a list of 256 hex colour strings; the colours are a parameter.
\<close>

definition barplot_stacked_proportions_palette ::
  "(string \<Rightarrow> error + palette) \<Rightarrow> string list \<Rightarrow> string \<Rightarrow> palette option \<Rightarrow> error + palette"
where
  "barplot_stacked_proportions_palette get_taxonomy_palette glasbey_light taxonomy_level palette =
     bind_res
       (case palette of
          None \<Rightarrow>
            (case get_taxonomy_palette taxonomy_level of
               Inl e \<Rightarrow> if e = ValueError then Inr (PaletteList glasbey_light) else Inl e
             | Inr p \<Rightarrow> Inr p)
        | Some p \<Rightarrow> Inr p)
       (\<lambda>p. setitem p ''other'' ''lightgrey'')"

section \<open>Example tables\<close>

text \<open>
  One region \<open>A\<close> of ten cells: five of cluster \<open>c1\<close>, three of \<open>c2\<close>, two of \<open>c3\<close>.
\<close>

definition scenario_obs :: "(nat, string) dataframe" where
  "scenario_obs =
     \<lparr>columns = [''region'', ''cluster''],
      rows = map (\<lambda>(i, c). (i, \<lambda>k. if k = ''region'' then ''A'' else c))
                 [(0, ''c1''), (1, ''c1''), (2, ''c1''), (3, ''c1''), (4, ''c1''),
                  (5, ''c2''), (6, ''c2''), (7, ''c2''), (8, ''c3''), (9, ''c3'')]\<rparr>"

text \<open>
  A palette provider that knows the three levels of the atlas and raises \<open>ValueError\<close>
  for any other level.
\<close>

definition atlas_palette :: "string \<Rightarrow> error + palette" where
  "atlas_palette level =
     (if level \<in> set default_levels then Inr (PaletteDict Map.empty) else Inl ValueError)"

text \<open>
  Four cells with the three taxonomy levels: two in region \<open>A\<close>, one in \<open>B\<close> and one
  in the excluded region \<open>unassigned\<close>, the only cell of cluster \<open>c3\<close>.
\<close>

definition regions_obs :: "(nat, string) dataframe" where
  "regions_obs =
     \<lparr>columns = [''region'', ''cluster'', ''supertype'', ''subclass''],
      rows = map (\<lambda>(i, reg, c, s, k).
                    (i, \<lambda>col. if col = ''region'' then reg
                               else if col = ''cluster'' then c
                               else if col = ''supertype'' then s else k))
                 [(0, ''A'', ''c1'', ''s1'', ''k1''),
                  (1, ''A'', ''c2'', ''s1'', ''k1''),
                  (2, ''B'', ''c1'', ''s1'', ''k1''),
                  (3, ''unassigned'', ''c3'', ''s2'', ''k1'')]\<rparr>"

text \<open>
  Three cells with coordinates and a cluster label, the index labels 10, 11 and 12. A
  cell of this table is a coordinate (\<open>Inl\<close>) or a label (\<open>Inr\<close>).
\<close>

definition local_obs :: "(nat, real + string) dataframe" where
  "local_obs =
     \<lparr>columns = [''x_ccf'', ''y_ccf'', ''z_ccf'', ''cluster''],
      rows = map (\<lambda>(i, x, c). (i, \<lambda>col. if col = ''cluster'' then Inr c
                                       else if col = ''x_ccf'' then Inl x else Inl 0))
                 [(10, 0, ''c1''), (11, 1, ''c2''), (12, 5, ''c1'')]\<rparr>"

text \<open>
  A stand-in for the nearest-neighbour search: every position has itself as first
  neighbour, then the other positions in order, and asking for more neighbours than there
  are rows raises, as scikit-learn does.
\<close>

definition index_order_neighbors :: "'a list list \<Rightarrow> nat \<Rightarrow> error + nat list list" where
  "index_order_neighbors X n_neighbors =
     (if length X = 0 \<or> length X < n_neighbors then Inl ValueError
      else Inr (map (\<lambda>i. take n_neighbors (i # filter (\<lambda>j. j \<noteq> i) [0..<length X]))
                    [0..<length X]))"

section \<open>Properties of the statistic formulas\<close>

lemma value_counts_Nil: "value_counts [] = []"
  by (simp add: value_counts_def)

lemma filter_value_counts:
  "filter (\<lambda>(c, n). P n) (value_counts x)
     = map (\<lambda>c. (c, count_list x c)) (filter (\<lambda>c. P (count_list x c)) (remdups x))"
  by (simp add: value_counts_def filter_map comp_def)

lemma positive_counts: "filter (\<lambda>c. 0 < count_list x c) (remdups x) = remdups x"
  by (rule filter_True) (simp add: count_list_0_iff flip: neq0_conv)

subsection \<open>The inverse Simpson index\<close>

text \<open>
  With \<open>n\<close> the sample size, the sum of the squared proportions is the sum of the
  squared counts over \<open>n\<^sup>2\<close>.
\<close>

lemma simpson_sum:
  "sum_list (map (\<lambda>(c, n). (real n / real (length x))\<^sup>2)
                 (filter (\<lambda>(c, n). 0 < n) (value_counts x)))
   = real (\<Sum>c\<in>set x. (count_list x c)\<^sup>2) / (real (length x))\<^sup>2"
proof -
  have "sum_list (map (\<lambda>(c, n). (real n / real (length x))\<^sup>2)
                      (filter (\<lambda>(c, n). 0 < n) (value_counts x)))
      = sum_list (map (\<lambda>c. (real (count_list x c) / real (length x))\<^sup>2) (remdups x))"
    by (simp add: filter_value_counts positive_counts comp_def)
  also have "\<dots> = (\<Sum>c\<in>set x. (real (count_list x c) / real (length x))\<^sup>2)"
    using sum_list_distinct_conv_sum_set [of "remdups x"] by simp
  also have "\<dots> = real (\<Sum>c\<in>set x. (count_list x c)\<^sup>2) / (real (length x))\<^sup>2"
    by (simp add: power_divide sum_divide_distrib)
  finally show ?thesis .
qed

lemma squares_le: "(\<Sum>c\<in>set x. (count_list x c)\<^sup>2) \<le> (length x)\<^sup>2"
proof -
  have "(\<Sum>c\<in>set x. (count_list x c)\<^sup>2) \<le> (\<Sum>c\<in>set x. length x * count_list x c)"
    by (rule sum_mono) (simp add: power2_eq_square count_le_length)
  also have "\<dots> = length x * (\<Sum>c\<in>set x. count_list x c)"
    by (simp add: sum_distrib_left)
  also have "\<dots> = (length x)\<^sup>2"
    by (simp add: sum_count_set power2_eq_square)
  finally show ?thesis .
qed

lemma squares_single:
  assumes s: "set x = {c}"
  shows "(\<Sum>c\<in>set x. (count_list x c)\<^sup>2) = (length x)\<^sup>2"
proof -
  have "(\<Sum>c\<in>set x. count_list x c) = length x"
    by (simp add: sum_count_set)
  with s have "count_list x c = length x" by simp
  with s show ?thesis by simp
qed

lemma squares_less:
  assumes "a \<in> set x" "b \<in> set x" "a \<noteq> b"
  shows "(\<Sum>c\<in>set x. (count_list x c)\<^sup>2) < (length x)\<^sup>2"
proof -
  have tot: "(\<Sum>c\<in>set x. count_list x c) = length x"
    by (simp add: sum_count_set)
  have "count_list x a + count_list x b \<le> (\<Sum>c\<in>{a, b}. count_list x c)"
    using assms by simp
  also have "\<dots> \<le> (\<Sum>c\<in>set x. count_list x c)"
    by (rule sum_mono2) (use assms in auto)
  finally have ab: "count_list x a + count_list x b \<le> length x"
    using tot by simp
  have pos: "0 < count_list x b" "0 < count_list x a"
    using assms by (simp_all add: count_list_0_iff flip: neq0_conv)
  with ab have lt: "count_list x a < length x" by simp
  have "(\<Sum>c\<in>set x. (count_list x c)\<^sup>2) < (\<Sum>c\<in>set x. length x * count_list x c)"
  proof (rule sum_strict_mono_ex1)
    show "finite (set x)" by simp
    show "\<forall>c\<in>set x. (count_list x c)\<^sup>2 \<le> length x * count_list x c"
      by (simp add: power2_eq_square count_le_length)
    show "\<exists>c\<in>set x. (count_list x c)\<^sup>2 < length x * count_list x c"
      using assms(1) lt pos(2) by (auto simp: power2_eq_square intro!: bexI [of _ a])
  qed
  also have "\<dots> = length x * (\<Sum>c\<in>set x. count_list x c)"
    by (simp add: sum_distrib_left)
  also have "\<dots> = (length x)\<^sup>2"
    by (simp add: tot power2_eq_square)
  finally show ?thesis .
qed

lemma squares_pos:
  assumes "x \<noteq> []"
  shows "0 < (\<Sum>c\<in>set x. (count_list x c)\<^sup>2)"
proof -
  from assms obtain a where a: "a \<in> set x" by (cases x) auto
  then have "0 < count_list x a" by (simp add: count_list_0_iff flip: neq0_conv)
  then have "0 < (count_list x a)\<^sup>2" by simp
  also have "(count_list x a)\<^sup>2 \<le> (\<Sum>c\<in>set x. (count_list x c)\<^sup>2)"
    using a by (intro member_le_sum) auto
  finally show ?thesis .
qed

text \<open>
  C1. For every non-empty sample the inverse Simpson index is a finite number, at least
  1, and it is 1 exactly when all items of the sample are of one category.
\<close>

theorem inverse_simpsons_index_ge_1:
  assumes "x \<noteq> []"
  shows "\<exists>r. inverse_simpsons_index x = Inr (Fin r) \<and> 1 \<le> r \<and> (r = 1 \<longleftrightarrow> (\<exists>c. set x = {c}))"
proof -
  let ?T = "\<Sum>c\<in>set x. (count_list x c)\<^sup>2"
  let ?n = "length x"
  let ?r = "(real ?n)\<^sup>2 / real ?T"
  have T: "0 < ?T" using assms by (rule squares_pos)
  have n: "0 < ?n" using assms by simp
  have le: "?T \<le> ?n\<^sup>2" by (rule squares_le)
  have fd: "fdiv (Fin 1) (Fin (t / m\<^sup>2)) = Fin (m\<^sup>2 / t)" if "0 < t" "0 < m" for t m :: real
    using that by simp
  have Tr: "0 < real ?T" using T by (simp only: of_nat_0_less_iff)
  have "inverse_simpsons_index x = Inr (fdiv (Fin 1) (Fin (real ?T / (real ?n)\<^sup>2)))"
    unfolding inverse_simpsons_index_def simpson_sum ..
  also have "fdiv (Fin 1) (Fin (real ?T / (real ?n)\<^sup>2)) = Fin ?r"
  proof (rule fd)
    show "0 < real ?T" by (rule Tr)
    show "0 < real ?n" using n by (simp only: of_nat_0_less_iff)
  qed
  finally have isi: "inverse_simpsons_index x = Inr (Fin ?r)" .
  have rle: "real ?T \<le> (real ?n)\<^sup>2"
    using le by (metis of_nat_le_iff of_nat_power)
  have ge: "1 \<le> ?r" using Tr rle by (simp only: le_divide_eq_1_pos)
  have "?r = 1 \<longleftrightarrow> real ?T = (real ?n)\<^sup>2"
    using Tr by (simp only: divide_eq_1_iff) auto
  also have "\<dots> \<longleftrightarrow> ?T = ?n\<^sup>2"
    by (metis of_nat_eq_iff of_nat_power)
  also have "\<dots> \<longleftrightarrow> (\<exists>c. set x = {c})"
  proof
    assume eq: "?T = ?n\<^sup>2"
    obtain a where a: "a \<in> set x" using assms by (cases x) auto
    have "set x = {a}"
    proof (rule ccontr)
      assume "set x \<noteq> {a}"
      with a obtain b where "b \<in> set x" "a \<noteq> b" by auto
      with a have "?T < ?n\<^sup>2" by (rule squares_less)
      with eq show False by simp
    qed
    then show "\<exists>c. set x = {c}" ..
  next
    assume "\<exists>c. set x = {c}"
    then show "?T = ?n\<^sup>2" by (auto dest: squares_single)
  qed
  finally have "?r = 1 \<longleftrightarrow> (\<exists>c. set x = {c})" .
  with isi ge show ?thesis by blast
qed

theorem inverse_simpsons_index_ge_1_witness:
  "[''c1'', ''c2'', ''c1''] \<noteq> []
   \<and> (\<exists>r. inverse_simpsons_index [''c1'', ''c2'', ''c1''] = Inr (Fin r) \<and> 1 \<le> r
          \<and> (r = 1 \<longleftrightarrow> (\<exists>c. set [''c1'', ''c2'', ''c1''] = {c})))"
  using inverse_simpsons_index_ge_1 [of "[''c1'', ''c2'', ''c1'']"] by simp

subsection \<open>The thresholded count\<close>

text \<open>
  C5. \<open>count_gt5\<close> is the number of categories that occur more than five times in the
  sample: a category of exactly five items is not counted, one of exactly six is.
\<close>

theorem count_gt5_counts_above_5:
  "count_gt5 x = Inr (Fin (real (card {c. 5 < count_list x c})))
   \<and> count_gt5 (replicate 5 c) = Inr (Fin 0)
   \<and> count_gt5 (replicate 6 c) = Inr (Fin 1)"
proof -
  let ?ys = "filter (\<lambda>c. 5 < count_list x c) (remdups x)"
  have e: "{c. 5 < count_list x c} = set ?ys"
    by (auto simp: count_list_0_iff intro: ccontr)
  have "card (set ?ys) = length ?ys"
    by (rule distinct_card) simp
  with e have "card {c. 5 < count_list x c} = length ?ys"
    by (simp only:)
  then have "count_gt5 x = Inr (Fin (real (card {c. 5 < count_list x c})))"
    by (simp add: count_gt5_def filter_value_counts)
  moreover have "count_gt5 (replicate 5 c) = Inr (Fin 0)"
    by (simp add: count_gt5_def value_counts_def numeral_eq_Suc)
  moreover have "count_gt5 (replicate 6 c) = Inr (Fin 1)"
    by (simp add: count_gt5_def value_counts_def numeral_eq_Suc)
  ultimately show ?thesis by blast
qed

subsection \<open>The empty sample\<close>

text \<open>
  C8, as the code has it. On the empty sample only \<open>count_unique_norm\<close> raises (a
  division of Python ints by zero). \<open>count_unique\<close> and \<open>count_gt5\<close> return 0,
  \<open>inverse_simpsons_index\<close> returns infinity (a numpy division by zero) and
  \<open>shannon_index\<close> returns the empty sum, 0.
\<close>

theorem empty_sample_results:
  "count_unique [] = Inr (Fin 0)
   \<and> count_gt5 [] = Inr (Fin 0)
   \<and> count_unique_norm [] = Inl ZeroDivisionError
   \<and> inverse_simpsons_index [] = Inr PInf
   \<and> shannon_index [] = Inr (Fin 0)"
  by (simp add: count_unique_def count_gt5_def count_unique_norm_def
      inverse_simpsons_index_def shannon_index_def value_counts_Nil)

text \<open>
  C8 as stated fails: \<open>count_unique\<close> of the empty sample is not an error.
\<close>

theorem count_unique_empty_counterexample:
  "\<not> isl (count_unique ([] :: string list))"
  by (simp add: count_unique_def)

section \<open>Properties of the region metric engine\<close>


lemma sequence_res_map_Inr: "sequence_res (map Inr vs) = Inr vs"
  by (induction vs) simp_all

lemma sequence_res_InrD: "sequence_res ms = Inr vs \<Longrightarrow> ms = map Inr vs"
proof (induction ms arbitrary: vs)
  case Nil
  then show ?case by simp
next
  case (Cons m ms)
  then show ?case
    by (cases m; cases "sequence_res ms") auto
qed

lemma sequence_res_eq_Inr: "sequence_res ms = Inr vs \<longleftrightarrow> ms = map Inr vs"
  using sequence_res_InrD sequence_res_map_Inr by blast

lemma map_eq_map_Inr_nth:
  assumes "map h ls = map Inr vs"
  shows "length vs = length ls" and "j < length ls \<Longrightarrow> h (ls ! j) = Inr (vs ! j)"
proof -
  show len: "length vs = length ls"
    using assms by (metis length_map)
  assume j: "j < length ls"
  then have "h (ls ! j) = map h ls ! j" by simp
  also have "\<dots> = map Inr vs ! j" by (simp only: assms)
  also have "\<dots> = Inr (vs ! j)" using j len by simp
  finally show "h (ls ! j) = Inr (vs ! j)" .
qed

lemma map_fst_groupby:
  "map fst (groupby rs key) = sort (remdups (map (\<lambda>(i, r). r key) rs))"
  by (simp add: groupby_def comp_def)

lemma in_groupby:
  assumes "(reg, grp) \<in> set (groupby rs key)"
  shows "grp = filter (\<lambda>(i, r). r key = reg) rs" and "reg \<in> (\<lambda>(i, r). r key) ` set rs"
  using assms by (auto simp: groupby_def)

lemma map_sum_Pair_Inr:
  "map_sum id (Pair reg0) m = Inr (reg, vs) \<longleftrightarrow> reg = reg0 \<and> m = Inr vs"
  by (cases m) auto

lemma aggregate_rows:
  assumes "sequence_res
             (map (\<lambda>(reg, grp). map_sum id (Pair reg) (sequence_res (map (h grp) levels))) gs)
           = Inr metric"
  shows "map fst metric = map fst gs"
    and "(reg, vs) \<in> set metric \<Longrightarrow> \<exists>grp. (reg, grp) \<in> set gs \<and> map (h grp) levels = map Inr vs"
proof -
  let ?F = "\<lambda>(reg, grp). map_sum id (Pair reg) (sequence_res (map (h grp) levels))"
  have eq: "map ?F gs = map Inr metric"
    using assms by (rule sequence_res_InrD)
  then have len: "length gs = length metric" by (metis length_map)
  have pt: "?F (gs ! k) = Inr (metric ! k)" if "k < length gs" for k
    using map_eq_map_Inr_nth(2) [OF eq that] .
  have row: "fst (metric ! k) = fst (gs ! k)
      \<and> map (h (snd (gs ! k))) levels = map Inr (snd (metric ! k))" if "k < length gs" for k
  proof -
    obtain reg0 grp0 where g: "gs ! k = (reg0, grp0)" by (cases "gs ! k")
    obtain reg1 vs1 where m: "metric ! k = (reg1, vs1)" by (cases "metric ! k")
    from pt [OF that] g m
    have "map_sum id (Pair reg0) (sequence_res (map (h grp0) levels)) = Inr (reg1, vs1)"
      by simp
    then have "reg1 = reg0" "sequence_res (map (h grp0) levels) = Inr vs1"
      by (simp_all add: map_sum_Pair_Inr)
    with g m show ?thesis by (simp add: sequence_res_eq_Inr)
  qed
  show "map fst metric = map fst gs"
    by (rule nth_equalityI) (use len row in simp_all)
  assume "(reg, vs) \<in> set metric"
  then obtain k where k: "k < length metric" "metric ! k = (reg, vs)"
    by (auto simp: in_set_conv_nth)
  with len row [of k] have "fst (gs ! k) = reg" "map (h (snd (gs ! k))) levels = map Inr vs"
    by simp_all
  moreover have "gs ! k \<in> set gs" using k len by simp
  ultimately have "(reg, snd (gs ! k)) \<in> set gs \<and> map (h (snd (gs ! k))) levels = map Inr vs"
    by (metis prod.collapse)
  then show "\<exists>grp. (reg, grp) \<in> set gs \<and> map (h grp) levels = map Inr vs" ..
qed

lemma get_region_metric_InrD:
  assumes "get_region_metric obs f name label exclude norm_fcn levels = Inr T"
  shows "label \<in> set (columns obs)"
    and "set levels \<subseteq> set (columns obs)"
    and "tcolumns T = map (\<lambda>x. name @ ''_'' @ x) levels"
    and "map fst (trows T) = sort (remdups (map (\<lambda>(i, r). r label)
            (filter (\<lambda>(i, r). r label \<notin> set exclude) (rows obs))))"
proof -
  show c: "label \<in> set (columns obs)"
    using assms by (auto simp: get_region_metric_def split: if_splits)
  show l: "set levels \<subseteq> set (columns obs)"
    using assms by (auto simp: get_region_metric_def split: if_splits)
  show "tcolumns T = map (\<lambda>x. name @ ''_'' @ x) levels"
    using assms c l by (auto simp: get_region_metric_def split: sum.splits option.splits)
  show "map fst (trows T) = sort (remdups (map (\<lambda>(i, r). r label)
            (filter (\<lambda>(i, r). r label \<notin> set exclude) (rows obs))))"
    using assms c l 
    by (auto simp: get_region_metric_def aggregate_rows(1) map_fst_groupby comp_def case_prod_unfold
        split: sum.splits option.splits)
qed


lemma get_region_metric_unfold:
  assumes "get_region_metric obs f name label exclude norm_fcn levels = Inr T"
  shows "\<exists>metric.
           sequence_res
             (map (\<lambda>(reg, grp).
                     map_sum id (Pair reg)
                       (sequence_res (map (\<lambda>l. f (map (\<lambda>(i, r). r l) grp)) levels)))
                  (groupby (filter (\<lambda>(i, r). r label \<notin> set exclude) (rows obs)) label))
             = Inr metric
           \<and> (case norm_fcn of
                 None \<Rightarrow> trows T = metric
               | Some g \<Rightarrow>
                   (\<exists>norms. sequence_res (map (\<lambda>l. g (map (\<lambda>(i, r). r l) (rows obs))) levels)
                               = Inr norms
                            \<and> trows T = map (\<lambda>(reg, vs). (reg, map2 fdiv vs norms)) metric))"
  using assms
  by (auto simp: get_region_metric_def split: if_splits sum.splits option.splits)

lemma get_region_metric_cell:
  assumes T: "get_region_metric obs f name label exclude norm_fcn levels = Inr T"
    and row: "(reg, vs) \<in> set (trows T)"
  shows "length vs = length levels"
    and "j < length levels \<Longrightarrow>
         \<exists>m. f (map (\<lambda>(i, r). r (levels ! j))
                   (filter (\<lambda>(i, r). r label = reg)
                      (filter (\<lambda>(i, r). r label \<notin> set exclude) (rows obs)))) = Inr m
            \<and> (case norm_fcn of
                  None \<Rightarrow> vs ! j = m
                | Some g \<Rightarrow>
                    (\<exists>n. g (map (\<lambda>(i, r). r (levels ! j)) (rows obs)) = Inr n
                         \<and> vs ! j = fdiv m n))"
proof -
  let ?kept = "filter (\<lambda>(i, r). r label \<notin> set exclude) (rows obs)"
  let ?h = "\<lambda>grp l. f (map (\<lambda>(i, r). r l) grp)"
  from get_region_metric_unfold [OF T] obtain metric where
    metric: "sequence_res
               (map (\<lambda>(reg, grp). map_sum id (Pair reg) (sequence_res (map (?h grp) levels)))
                    (groupby ?kept label)) = Inr metric"
    and shape: "case norm_fcn of
                  None \<Rightarrow> trows T = metric
                | Some g \<Rightarrow>
                   (\<exists>norms. sequence_res (map (\<lambda>l. g (map (\<lambda>(i, r). r l) (rows obs))) levels)
                               = Inr norms
                            \<and> trows T = map (\<lambda>(reg, vs). (reg, map2 fdiv vs norms)) metric)"
    by blast
  have raw: "length vs0 = length levels
      \<and> (\<forall>j<length levels. ?h (filter (\<lambda>(i, r). r label = reg) ?kept) (levels ! j) = Inr (vs0 ! j))"
    if "(reg, vs0) \<in> set metric" for vs0
  proof -
    from aggregate_rows(2) [OF metric that] obtain grp where
      grp: "(reg, grp) \<in> set (groupby ?kept label)" "map (?h grp) levels = map Inr vs0"
      by blast
    from in_groupby(1) [OF grp(1)] have "grp = filter (\<lambda>(i, r). r label = reg) ?kept" .
    with map_eq_map_Inr_nth [OF grp(2)] show ?thesis by simp
  qed
  show "length vs = length levels"
  proof (cases norm_fcn)
    case None
    with shape row raw show ?thesis by simp
  next
    case (Some g)
    with shape obtain norms where
      norms: "sequence_res (map (\<lambda>l. g (map (\<lambda>(i, r). r l) (rows obs))) levels) = Inr norms"
      and rows: "trows T = map (\<lambda>(reg, vs). (reg, map2 fdiv vs norms)) metric"
      by auto
    from row rows obtain vs0 where vs0: "(reg, vs0) \<in> set metric" "vs = map2 fdiv vs0 norms"
      by auto
    have "length norms = length levels"
      using map_eq_map_Inr_nth(1) [OF sequence_res_InrD [OF norms]] .
    with raw [OF vs0(1)] vs0(2) show ?thesis by simp
  qed
  assume j: "j < length levels"
  show "\<exists>m. f (map (\<lambda>(i, r). r (levels ! j))
                   (filter (\<lambda>(i, r). r label = reg) ?kept)) = Inr m
            \<and> (case norm_fcn of
                  None \<Rightarrow> vs ! j = m
                | Some g \<Rightarrow>
                    (\<exists>n. g (map (\<lambda>(i, r). r (levels ! j)) (rows obs)) = Inr n
                         \<and> vs ! j = fdiv m n))"
  proof (cases norm_fcn)
    case None
    with shape row raw [of vs] j show ?thesis by simp
  next
    case (Some g)
    with shape obtain norms where
      norms: "sequence_res (map (\<lambda>l. g (map (\<lambda>(i, r). r l) (rows obs))) levels) = Inr norms"
      and rows: "trows T = map (\<lambda>(reg, vs). (reg, map2 fdiv vs norms)) metric"
      by auto
    from row rows obtain vs0 where vs0: "(reg, vs0) \<in> set metric" "vs = map2 fdiv vs0 norms"
      by auto
    note n = map_eq_map_Inr_nth [OF sequence_res_InrD [OF norms]]
    from raw [OF vs0(1)] j have
      m: "f (map (\<lambda>(i, r). r (levels ! j)) (filter (\<lambda>(i, r). r label = reg) ?kept)) = Inr (vs0 ! j)"
      and len: "length vs0 = length levels"
      by simp_all
    have "vs ! j = fdiv (vs0 ! j) (norms ! j)"
      using vs0(2) j len n(1) by simp
    with m n(2) [OF j] Some show ?thesis by simp
  qed
qed


lemma region_labels_of_index:
  assumes "get_region_metric obs_ccf function metric_name ccf_label exclude norm_fcn levels = Inr T"
  shows "set (map fst (trows T))
           = {r ccf_label | i r. (i, r) \<in> set (rows obs_ccf)} - set exclude"
  unfolding get_region_metric_InrD(4) [OF assms] by (auto simp: image_iff)

lemma get_region_metric_value:
  assumes "get_region_metric obs_ccf function metric_name ccf_label exclude (Some norm_fcn) levels
             = Inr T"
    and "(reg, vs) \<in> set (trows T)"
    and "j < length levels"
  shows "\<exists>m n. function (map (\<lambda>(i, r). r (levels ! j))
                          (filter (\<lambda>(i, r). r ccf_label = reg) (rows obs_ccf))) = Inr m
             \<and> norm_fcn (map (\<lambda>(i, r). r (levels ! j)) (rows obs_ccf)) = Inr n
             \<and> j < length vs \<and> vs ! j = fdiv m n
             \<and> tcolumns T ! j = metric_name @ ''_'' @ levels ! j"
proof -
  have "reg \<in> set (map fst (trows T))"
    using assms(2) by force
  then have "reg \<notin> set exclude"
    using get_region_metric_InrD(4) [OF assms(1)] by auto
  then have same: "filter (\<lambda>(i, r). r ccf_label = reg)
                     (filter (\<lambda>(i, r). r ccf_label \<notin> set exclude) (rows obs_ccf))
                 = filter (\<lambda>(i, r). r ccf_label = reg) (rows obs_ccf)"
    by (auto intro: filter_cong)
  from get_region_metric_cell [OF assms(1,2)] assms(3) same
  have "length vs = length levels"
    and "\<exists>m. function (map (\<lambda>(i, r). r (levels ! j))
                   (filter (\<lambda>(i, r). r ccf_label = reg) (rows obs_ccf))) = Inr m
            \<and> (\<exists>n. norm_fcn (map (\<lambda>(i, r). r (levels ! j)) (rows obs_ccf)) = Inr n
                         \<and> vs ! j = fdiv m n)"
    by simp_all
  moreover have "tcolumns T ! j = metric_name @ ''_'' @ levels ! j"
    using get_region_metric_InrD(3) [OF assms(1)] assms(3) by simp
  ultimately show ?thesis using assms(3) by auto
qed

text \<open>
  C2. The row index of the table that \<open>get_region_metric\<close> returns is, without
  repetition, exactly the set of region labels that occur in the region column of the
  observation table and are not in the exclusion list; no excluded label is in it.
\<close>

theorem get_region_metric_index:
  assumes "get_region_metric obs_ccf function metric_name ccf_label exclude norm_fcn levels = Inr T"
  shows "set (map fst (trows T))
           = {r ccf_label | i r. (i, r) \<in> set (rows obs_ccf)} - set exclude
         \<and> distinct (map fst (trows T))
         \<and> set (map fst (trows T)) \<inter> set exclude = {}"
proof -
  have idx: "map fst (trows T) = sort (remdups (map (\<lambda>(i, r). r ccf_label)
            (filter (\<lambda>(i, r). r ccf_label \<notin> set exclude) (rows obs_ccf))))"
    using assms by (rule get_region_metric_InrD(4))
  have s: "set (map fst (trows T))
      = {r ccf_label | i r. (i, r) \<in> set (rows obs_ccf)} - set exclude"
    unfolding idx by (auto simp: image_iff)
  have d: "distinct (map fst (trows T))"
    unfolding idx by simp
  from s have "set (map fst (trows T)) \<inter> set exclude = {}" by blast
  with s d show ?thesis by blast
qed

theorem get_region_metric_index_witness:
  "get_region_metric regions_obs count_unique ''count'' ''region'' default_exclude None
       default_levels
     = Inr \<lparr>tcolumns = [''count_cluster'', ''count_supertype'', ''count_subclass''],
            trows = [(''A'', [Fin 2, Fin 1, Fin 1]), (''B'', [Fin 1, Fin 1, Fin 1])]\<rparr>
   \<and> set (map fst [(''A'', [Fin 2, Fin 1, Fin 1]), (''B'', [Fin 1, Fin 1, Fin 1])])
       = {r ''region'' | i r. (i, r) \<in> set (rows regions_obs)} - set default_exclude
   \<and> distinct (map fst [(''A'', [Fin 2, Fin 1, Fin 1]), (''B'', [Fin 1, Fin 1, Fin 1])])
   \<and> set (map fst [(''A'', [Fin 2, Fin 1, Fin 1]), (''B'', [Fin 1, Fin 1, Fin 1])])
        \<inter> set default_exclude = {}"
proof -
  have h: "get_region_metric regions_obs count_unique ''count'' ''region'' default_exclude None
       default_levels
     = Inr \<lparr>tcolumns = [''count_cluster'', ''count_supertype'', ''count_subclass''],
            trows = [(''A'', [Fin 2, Fin 1, Fin 1]), (''B'', [Fin 1, Fin 1, Fin 1])]\<rparr>"
    by code_simp
  note r = get_region_metric_index [OF h, unfolded table.select_convs]
  from h r show ?thesis by blast
qed

text \<open>
  C6. With a normalization function, the value of a region in the column of a level is
  the metric of the region's cells divided by the normalization function of the whole
  column of that level in the observation table, the cells of excluded regions included.
\<close>

theorem get_region_metric_normalization:
  assumes "get_region_metric obs_ccf function metric_name ccf_label exclude (Some norm_fcn) levels
             = Inr T"
    and "(reg, vs) \<in> set (trows T)"
    and "j < length levels"
  shows "\<exists>m n. function (map (\<lambda>(i, r). r (levels ! j))
                          (filter (\<lambda>(i, r). r ccf_label = reg) (rows obs_ccf))) = Inr m
             \<and> norm_fcn (map (\<lambda>(i, r). r (levels ! j)) (rows obs_ccf)) = Inr n
             \<and> j < length vs \<and> vs ! j = fdiv m n
             \<and> tcolumns T ! j = metric_name @ ''_'' @ levels ! j"
  using assms by (rule get_region_metric_value)

theorem get_region_metric_normalization_witness:
  "get_region_metric regions_obs count_unique ''frac'' ''region'' default_exclude
       (Some count_unique) default_levels
     = Inr \<lparr>tcolumns = [''frac_cluster'', ''frac_supertype'', ''frac_subclass''],
            trows = [(''A'', [Fin (2 / 3), Fin (1 / 2), Fin 1]),
                     (''B'', [Fin (1 / 3), Fin (1 / 2), Fin 1])]\<rparr>
   \<and> count_unique (map (\<lambda>(i, r). r ''cluster'')
                       (filter (\<lambda>(i, r). r ''region'' = ''A'') (rows regions_obs))) = Inr (Fin 2)
   \<and> count_unique (map (\<lambda>(i, r). r ''cluster'') (rows regions_obs)) = Inr (Fin 3)
   \<and> [Fin (2 / 3), Fin (1 / 2), Fin 1] ! 0 = fdiv (Fin 2) (Fin 3)"
proof -
  let ?T = "\<lparr>tcolumns = [''frac_cluster'', ''frac_supertype'', ''frac_subclass''],
            trows = [(''A'', [Fin (2 / 3), Fin (1 / 2), Fin 1]),
                     (''B'', [Fin (1 / 3), Fin (1 / 2), Fin 1])]\<rparr>"
  have h1: "get_region_metric regions_obs count_unique ''frac'' ''region'' default_exclude
       (Some count_unique) default_levels = Inr ?T"
    by code_simp
  have h2: "(''A'', [Fin (2 / 3), Fin (1 / 2), Fin 1]) \<in> set (trows ?T)" by simp
  have h3: "0 < length default_levels" by (simp add: default_levels_def)
  have l0: "default_levels ! 0 = ''cluster''" by (simp add: default_levels_def)
  have a: "count_unique (map (\<lambda>(i, r). r ''cluster'')
                       (filter (\<lambda>(i, r). r ''region'' = ''A'') (rows regions_obs))) = Inr (Fin 2)"
    by code_simp
  have b: "count_unique (map (\<lambda>(i, r). r ''cluster'') (rows regions_obs)) = Inr (Fin 3)"
    by code_simp
  from get_region_metric_normalization [OF h1 h2 h3] h1 a b show ?thesis
    by (simp add: l0)
qed

section \<open>Properties of the diversity metrics table\<close>


lemma count_unique_card: "count_unique x = Inr (Fin (real (card (set x))))"
  by (simp add: count_unique_def length_remdups_card_conv)

text \<open>
  \<open>count_unique\<close> is monotone: a sample whose labels all occur in another sample, as
  the labels of a region's cells occur in the whole column, has at most as many distinct
  labels.
\<close>

lemma count_unique_mono:
  assumes "set x \<subseteq> set y"
  shows "\<exists>a b. count_unique x = Inr (Fin a) \<and> count_unique y = Inr (Fin b) \<and> a \<le> b"
proof -
  have "card (set x) \<le> card (set y)"
    using assms by (simp add: card_mono)
  then show ?thesis by (simp add: count_unique_card)
qed

lemma count_unique_bounded: "\<exists>k. count_unique x = Inr (Fin (real k)) \<and> k \<le> card (set x)"
  by (simp add: count_unique_card)

lemma count_gt5_bounded: "\<exists>k. count_gt5 x = Inr (Fin (real k)) \<and> k \<le> card (set x)"
proof -
  have "length (filter (\<lambda>c. 5 < count_list x c) (remdups x)) \<le> length (remdups x)"
    by (rule length_filter_le)
  then show ?thesis
    by (simp add: count_gt5_def filter_value_counts length_remdups_card_conv)
qed

lemma frac_cell_le_1:
  assumes T: "get_region_metric obs f name label exclude (Some count_unique) levels = Inr T"
    and row: "(reg, vs) \<in> set (trows T)"
    and j: "j < length levels"
    and f: "\<And>x. \<exists>k. f x = Inr (Fin (real k)) \<and> k \<le> card (set x)"
  shows "\<exists>r. vs ! j = Fin r \<and> r \<le> 1"
proof -
  let ?sample = "map (\<lambda>(i, r). r (levels ! j)) (filter (\<lambda>(i, r). r label = reg) (rows obs))"
  let ?whole = "map (\<lambda>(i, r). r (levels ! j)) (rows obs)"
  from get_region_metric_value [OF T row j] obtain m n where
    m: "f ?sample = Inr m" and n: "count_unique ?whole = Inr n" and v: "vs ! j = fdiv m n"
    by blast
  from f [of ?sample] m obtain k where k: "m = Fin (real k)" "k \<le> card (set ?sample)"
    by auto
  from n have n': "n = Fin (real (card (set ?whole)))"
    by (simp add: count_unique_card)
  have "reg \<in> set (map fst (trows T))" using row by force
  then have "reg \<in> (\<lambda>(i, r). r label) ` set (rows obs)"
    using get_region_metric_InrD(4) [OF T] by auto
  then have "rows obs \<noteq> []" by auto
  then have "set ?whole \<noteq> {}" by simp
  then have pos: "0 < card (set ?whole)" by (simp add: card_gt_0_iff)
  have "set ?sample \<subseteq> set ?whole" by auto
  from count_unique_mono [OF this]
  have "card (set ?sample) \<le> card (set ?whole)" by (simp add: count_unique_card)
  with k(2) have le: "k \<le> card (set ?whole)" by simp
  have "fdiv (Fin (real k)) (Fin (real c)) = Fin (real k / real c) \<and> real k / real c \<le> 1"
    if "0 < c" "k \<le> c" for c :: nat
    using that by simp
  from this [OF pos le] v k(1) n' show ?thesis by simp
qed

lemma calculate_diversity_metrics_unfold:
  assumes "calculate_diversity_metrics obs label = Inr T"
  shows "\<exists>T1 T2 T3 T4 T5 T6 T7 col.
     get_region_metric obs count_unique ''count'' label default_exclude None default_levels = Inr T1
   \<and> get_region_metric obs count_unique ''frac'' label default_exclude (Some count_unique) default_levels = Inr T2
   \<and> get_region_metric obs count_unique_norm ''count_norm2cells'' label default_exclude None default_levels = Inr T3
   \<and> get_region_metric obs count_gt5 ''count_gt5'' label default_exclude None default_levels = Inr T4
   \<and> get_region_metric obs count_gt5 ''frac_gt5'' label default_exclude (Some count_unique) default_levels = Inr T5
   \<and> get_region_metric obs inverse_simpsons_index ''inverse_simpsons'' label default_exclude None default_levels = Inr T6
   \<and> get_region_metric obs shannon_index ''shannon_index'' label default_exclude None default_levels = Inr T7
   \<and> tcolumns T = tcolumns (concat_axis1 [T1, T2, T3, T4, T5, T6, T7]) @ [''count_cells'']
   \<and> trows T = map (\<lambda>(reg, vs).
                                      (reg, vs @ [case map_of (value_counts col) reg of
                                                    Some n \<Rightarrow> Fin (real n)
                                                  | None \<Rightarrow> NaN]))
                                   (trows (concat_axis1 [T1, T2, T3, T4, T5, T6, T7]))"
  using assms unfolding calculate_diversity_metrics_def bind_res_def Let_def
  by (auto split: sum.splits)


lemma map_of_index_row:
  assumes "map fst rws = R" "reg \<in> set R"
  shows "\<exists>vs. map_of rws reg = Some vs \<and> (reg, vs) \<in> set rws"
proof -
  from assms have "reg \<in> fst ` set rws" by auto
  then obtain vs where "map_of rws reg = Some vs"
    by (metis map_of_eq_None_iff not_None_eq)
  then show ?thesis by (blast dest: map_of_SomeD)
qed

lemma map_of_keyed: "i \<in> set idx \<Longrightarrow> map_of (map (\<lambda>i. (i, G i)) idx) i = Some (G i)"
  by (induction idx) auto

lemma list3: "length v = 3 \<Longrightarrow> \<exists>a b c. v = [a, b, c]"
  by (auto simp: numeral_3_eq_3 length_Suc_conv)

lemma diversity_row:
  assumes T: "calculate_diversity_metrics obs label = Inr T"
    and reg: "reg \<in> fst ` set (trows T)"
    and j: "j < 3"
  shows "\<exists>T2 T5 v2 v5.
      get_region_metric obs count_unique ''frac'' label default_exclude (Some count_unique)
        default_levels = Inr T2
    \<and> get_region_metric obs count_gt5 ''frac_gt5'' label default_exclude (Some count_unique)
        default_levels = Inr T5
    \<and> (reg, v2) \<in> set (trows T2) \<and> (reg, v5) \<in> set (trows T5)
    \<and> loc T reg (''frac_'' @ default_levels ! j) = Some (v2 ! j)
    \<and> loc T reg (''frac_gt5_'' @ default_levels ! j) = Some (v5 ! j)"
proof -
  from calculate_diversity_metrics_unfold [OF T]
  obtain T1 T2 T3 T4 T5 T6 T7 col where
    g1: "get_region_metric obs count_unique ''count'' label default_exclude None default_levels = Inr T1"
    and g2: "get_region_metric obs count_unique ''frac'' label default_exclude (Some count_unique) default_levels = Inr T2"
    and g3: "get_region_metric obs count_unique_norm ''count_norm2cells'' label default_exclude None default_levels = Inr T3"
    and g4: "get_region_metric obs count_gt5 ''count_gt5'' label default_exclude None default_levels = Inr T4"
    and g5: "get_region_metric obs count_gt5 ''frac_gt5'' label default_exclude (Some count_unique) default_levels = Inr T5"
    and g6: "get_region_metric obs inverse_simpsons_index ''inverse_simpsons'' label default_exclude None default_levels = Inr T6"
    and g7: "get_region_metric obs shannon_index ''shannon_index'' label default_exclude None default_levels = Inr T7"
    and cols: "tcolumns T = tcolumns (concat_axis1 [T1, T2, T3, T4, T5, T6, T7]) @ [''count_cells'']"
    and rws: "trows T = map (\<lambda>(reg, vs).
                                      (reg, vs @ [case map_of (value_counts col) reg of
                                                    Some n \<Rightarrow> Fin (real n)
                                                  | None \<Rightarrow> NaN]))
                                   (trows (concat_axis1 [T1, T2, T3, T4, T5, T6, T7]))"
    by blast
  define R where "R = sort (remdups (map (\<lambda>(i, r). r label)
            (filter (\<lambda>(i, r). r label \<notin> set default_exclude) (rows obs))))"
  note idx = get_region_metric_InrD(4) [OF g1, folded R_def]
    get_region_metric_InrD(4) [OF g2, folded R_def]
    get_region_metric_InrD(4) [OF g3, folded R_def]
    get_region_metric_InrD(4) [OF g4, folded R_def]
    get_region_metric_InrD(4) [OF g5, folded R_def]
    get_region_metric_InrD(4) [OF g6, folded R_def]
    get_region_metric_InrD(4) [OF g7, folded R_def]
  let ?F = "\<lambda>i. concat (map (\<lambda>t. case map_of (trows t) i of
                                                Some vs \<Rightarrow> vs
                                              | None \<Rightarrow> replicate (length (tcolumns t)) NaN)
                         [T1, T2, T3, T4, T5, T6, T7])"
  let ?cc = "\<lambda>reg. case map_of (value_counts col) reg of
                                                    Some n \<Rightarrow> Fin (real n)
                                                  | None \<Rightarrow> NaN"
  define index where
    "index = remdups (concat (map (\<lambda>t. map fst (trows t)) [T1, T2, T3, T4, T5, T6, T7]))"
  have rws': "trows T = map (\<lambda>i. (i, ?F i @ [?cc i])) index"
    unfolding rws concat_axis1_def index_def by (simp add: comp_def)
  have "set index = set R"
    unfolding index_def by (simp add: idx)
  moreover have "fst ` set (trows T) = set index"
    unfolding rws' by (simp add: image_image)
  ultimately have regR: "reg \<in> set R" and regI: "reg \<in> set index"
    using reg by simp_all
  from map_of_index_row [OF idx(1) regR] obtain v1 where v1: "map_of (trows T1) reg = Some v1" "(reg, v1) \<in> set (trows T1)" by blast
  from map_of_index_row [OF idx(2) regR] obtain v2 where v2: "map_of (trows T2) reg = Some v2" "(reg, v2) \<in> set (trows T2)" by blast
  from map_of_index_row [OF idx(3) regR] obtain v3 where v3: "map_of (trows T3) reg = Some v3" "(reg, v3) \<in> set (trows T3)" by blast
  from map_of_index_row [OF idx(4) regR] obtain v4 where v4: "map_of (trows T4) reg = Some v4" "(reg, v4) \<in> set (trows T4)" by blast
  from map_of_index_row [OF idx(5) regR] obtain v5 where v5: "map_of (trows T5) reg = Some v5" "(reg, v5) \<in> set (trows T5)" by blast
  from map_of_index_row [OF idx(6) regR] obtain v6 where v6: "map_of (trows T6) reg = Some v6" "(reg, v6) \<in> set (trows T6)" by blast
  from map_of_index_row [OF idx(7) regR] obtain v7 where v7: "map_of (trows T7) reg = Some v7" "(reg, v7) \<in> set (trows T7)" by blast
  have l3: "length default_levels = 3" by (simp add: default_levels_def)
  from get_region_metric_cell(1) [OF g1 v1(2)] l3 obtain a1 b1 c1 where w1: "v1 = [a1, b1, c1]" by (auto dest: list3)
  from get_region_metric_cell(1) [OF g2 v2(2)] l3 obtain a2 b2 c2 where w2: "v2 = [a2, b2, c2]" by (auto dest: list3)
  from get_region_metric_cell(1) [OF g3 v3(2)] l3 obtain a3 b3 c3 where w3: "v3 = [a3, b3, c3]" by (auto dest: list3)
  from get_region_metric_cell(1) [OF g4 v4(2)] l3 obtain a4 b4 c4 where w4: "v4 = [a4, b4, c4]" by (auto dest: list3)
  from get_region_metric_cell(1) [OF g5 v5(2)] l3 obtain a5 b5 c5 where w5: "v5 = [a5, b5, c5]" by (auto dest: list3)
  from get_region_metric_cell(1) [OF g6 v6(2)] l3 obtain a6 b6 c6 where w6: "v6 = [a6, b6, c6]" by (auto dest: list3)
  from get_region_metric_cell(1) [OF g7 v7(2)] l3 obtain a7 b7 c7 where w7: "v7 = [a7, b7, c7]" by (auto dest: list3)
  have row: "map_of (trows T) reg = Some (v1 @ v2 @ v3 @ v4 @ v5 @ v6 @ v7 @ [?cc reg])"
    unfolding rws' by (simp add: map_of_keyed [OF regI] v1 v2 v3 v4 v5 v6 v7)
  have names: "tcolumns T =
      [''count_cluster'', ''count_supertype'', ''count_subclass'',
       ''frac_cluster'', ''frac_supertype'', ''frac_subclass'',
       ''count_norm2cells_cluster'', ''count_norm2cells_supertype'', ''count_norm2cells_subclass'',
       ''count_gt5_cluster'', ''count_gt5_supertype'', ''count_gt5_subclass'',
       ''frac_gt5_cluster'', ''frac_gt5_supertype'', ''frac_gt5_subclass'',
       ''inverse_simpsons_cluster'', ''inverse_simpsons_supertype'', ''inverse_simpsons_subclass'',
       ''shannon_index_cluster'', ''shannon_index_supertype'', ''shannon_index_subclass'',
       ''count_cells'']"
    unfolding cols concat_axis1_def
    by (simp add: get_region_metric_InrD(3) [OF g1] get_region_metric_InrD(3) [OF g2]
        get_region_metric_InrD(3) [OF g3] get_region_metric_InrD(3) [OF g4]
        get_region_metric_InrD(3) [OF g5] get_region_metric_InrD(3) [OF g6]
        get_region_metric_InrD(3) [OF g7] default_levels_def)
  from j have "j = 0 \<or> j = 1 \<or> j = 2" by auto
  then have "loc T reg (''frac_'' @ default_levels ! j) = Some (v2 ! j)
    \<and> loc T reg (''frac_gt5_'' @ default_levels ! j) = Some (v5 ! j)"
    unfolding loc_def row names w1 w2 w3 w4 w5 w6 w7
    by (auto simp: default_levels_def)
  with g2 g5 v2(2) v5(2) show ?thesis by blast
qed


lemma diversity_index:
  assumes T: "calculate_diversity_metrics obs label = Inr T"
  shows "fst ` set (trows T)
           = {r label | i r. (i, r) \<in> set (rows obs)} - set default_exclude"
proof -
  from calculate_diversity_metrics_unfold [OF T]
  obtain T1 T2 T3 T4 T5 T6 T7 col where
    g1: "get_region_metric obs count_unique ''count'' label default_exclude None default_levels = Inr T1"
    and g2: "get_region_metric obs count_unique ''frac'' label default_exclude (Some count_unique) default_levels = Inr T2"
    and g3: "get_region_metric obs count_unique_norm ''count_norm2cells'' label default_exclude None default_levels = Inr T3"
    and g4: "get_region_metric obs count_gt5 ''count_gt5'' label default_exclude None default_levels = Inr T4"
    and g5: "get_region_metric obs count_gt5 ''frac_gt5'' label default_exclude (Some count_unique) default_levels = Inr T5"
    and g6: "get_region_metric obs inverse_simpsons_index ''inverse_simpsons'' label default_exclude None default_levels = Inr T6"
    and g7: "get_region_metric obs shannon_index ''shannon_index'' label default_exclude None default_levels = Inr T7"
    and rws: "trows T = map (\<lambda>(reg, vs).
                                      (reg, vs @ [case map_of (value_counts col) reg of
                                                    Some n \<Rightarrow> Fin (real n)
                                                  | None \<Rightarrow> NaN]))
                                   (trows (concat_axis1 [T1, T2, T3, T4, T5, T6, T7]))"
    by blast
  define R where "R = {r label | i r. (i, r) \<in> set (rows obs)} - set default_exclude"
  note idx = region_labels_of_index [OF g1, folded R_def]
    region_labels_of_index [OF g2, folded R_def]
    region_labels_of_index [OF g3, folded R_def]
    region_labels_of_index [OF g4, folded R_def]
    region_labels_of_index [OF g5, folded R_def]
    region_labels_of_index [OF g6, folded R_def]
    region_labels_of_index [OF g7, folded R_def]
  have "fst ` set (trows T)
      = set (concat (map (\<lambda>t. map fst (trows t)) [T1, T2, T3, T4, T5, T6, T7]))"
    unfolding rws concat_axis1_def by (simp add: image_image case_prod_unfold)
  also have "\<dots> = R"
    using idx by (simp del: set_map)
  finally show ?thesis unfolding R_def .
qed

lemma sequence_res_returns:
  assumes "\<And>m. m \<in> set ms \<Longrightarrow> \<exists>v. m = Inr v"
  shows "\<exists>vs. sequence_res ms = Inr vs"
  using assms
proof (induction ms)
  case Nil
  then show ?case by simp
next
  case (Cons m ms)
  then obtain v vs where "m = Inr v" "sequence_res ms = Inr vs"
    by (metis list.set_intros(1) list.set_intros(2))
  then show ?case by simp
qed

lemma get_region_metric_returns:
  assumes c: "label \<in> set (columns obs)"
    and l: "set levels \<subseteq> set (columns obs)"
    and f: "\<And>x. x \<noteq> [] \<Longrightarrow> \<exists>v. f x = Inr v"
    and g: "\<And>g x. norm_fcn = Some g \<Longrightarrow> \<exists>v. g x = Inr v"
  shows "\<exists>T. get_region_metric obs f name label exclude norm_fcn levels = Inr T"
proof -
  let ?kept = "filter (\<lambda>(i, r). r label \<notin> set exclude) (rows obs)"
  have "\<exists>metric. sequence_res
               (map (\<lambda>(reg, grp). map_sum id (Pair reg)
                       (sequence_res (map (\<lambda>l. f (map (\<lambda>(i, r). r l) grp)) levels)))
                    (groupby ?kept label)) = Inr metric"
  proof (rule sequence_res_returns)
    fix m
    assume "m \<in> set (map (\<lambda>(reg, grp). map_sum id (Pair reg)
                       (sequence_res (map (\<lambda>l. f (map (\<lambda>(i, r). r l) grp)) levels)))
                    (groupby ?kept label))"
    then obtain reg grp where rg: "(reg, grp) \<in> set (groupby ?kept label)"
      and m: "m = map_sum id (Pair reg)
                       (sequence_res (map (\<lambda>l. f (map (\<lambda>(i, r). r l) grp)) levels))"
      by auto
    from in_groupby [OF rg] have "grp \<noteq> []"
      by (auto simp: filter_empty_conv)
    have "\<exists>vs. sequence_res (map (\<lambda>l. f (map (\<lambda>(i, r). r l) grp)) levels) = Inr vs"
    proof (rule sequence_res_returns)
      fix m'
      assume "m' \<in> set (map (\<lambda>l. f (map (\<lambda>(i, r). r l) grp)) levels)"
      then obtain l where "m' = f (map (\<lambda>(i, r). r l) grp)" by auto
      moreover have "map (\<lambda>(i, r). r l) grp \<noteq> []" using \<open>grp \<noteq> []\<close> by simp
      ultimately show "\<exists>v. m' = Inr v" using f by blast
    qed
    with m show "\<exists>v. m = Inr v" by auto
  qed
  then obtain metric where metric: "sequence_res
               (map (\<lambda>(reg, grp). map_sum id (Pair reg)
                       (sequence_res (map (\<lambda>l. f (map (\<lambda>(i, r). r l) grp)) levels)))
                    (groupby ?kept label)) = Inr metric" ..
  show ?thesis
  proof (cases norm_fcn)
    case None
    with c l metric show ?thesis by (simp add: get_region_metric_def)
  next
    case (Some h)
    have "\<exists>norms. sequence_res (map (\<lambda>l. h (map (\<lambda>(i, r). r l) (rows obs))) levels) = Inr norms"
    proof (rule sequence_res_returns)
      fix m'
      assume "m' \<in> set (map (\<lambda>l. h (map (\<lambda>(i, r). r l) (rows obs))) levels)"
      then obtain l where "m' = h (map (\<lambda>(i, r). r l) (rows obs))" by auto
      then show "\<exists>v. m' = Inr v" using g [OF Some] by blast
    qed
    with Some c l metric show ?thesis by (auto simp add: get_region_metric_def)
  qed
qed

lemma calculate_diversity_metrics_returns:
  assumes c: "label \<in> set (columns obs)"
    and l: "set default_levels \<subseteq> set (columns obs)"
  shows "\<exists>T. calculate_diversity_metrics obs label = Inr T"
proof -
  have "\<exists>T1. get_region_metric obs count_unique ''count'' label default_exclude None default_levels = Inr T1"
    by (rule get_region_metric_returns [OF c l]) (simp_all add: count_unique_def)
  moreover have "\<exists>T2. get_region_metric obs count_unique ''frac'' label default_exclude (Some count_unique) default_levels = Inr T2"
    by (rule get_region_metric_returns [OF c l]) (auto simp add: count_unique_def)
  moreover have "\<exists>T3. get_region_metric obs count_unique_norm ''count_norm2cells'' label default_exclude None default_levels = Inr T3"
    by (rule get_region_metric_returns [OF c l]) (simp_all add: count_unique_norm_def)
  moreover have "\<exists>T4. get_region_metric obs count_gt5 ''count_gt5'' label default_exclude None default_levels = Inr T4"
    by (rule get_region_metric_returns [OF c l]) (simp_all add: count_gt5_def)
  moreover have "\<exists>T5. get_region_metric obs count_gt5 ''frac_gt5'' label default_exclude (Some count_unique) default_levels = Inr T5"
    by (rule get_region_metric_returns [OF c l]) (auto simp add: count_gt5_def count_unique_def)
  moreover have "\<exists>T6. get_region_metric obs inverse_simpsons_index ''inverse_simpsons'' label default_exclude None default_levels = Inr T6"
    by (rule get_region_metric_returns [OF c l]) (simp_all add: inverse_simpsons_index_def)
  moreover have "\<exists>T7. get_region_metric obs shannon_index ''shannon_index'' label default_exclude None default_levels = Inr T7"
    by (rule get_region_metric_returns [OF c l]) (simp_all add: shannon_index_def Let_def)
  ultimately show ?thesis
    using c by (auto simp add: calculate_diversity_metrics_def bind_res_def getcol_def Let_def)
qed

text \<open>
  C10. In the table of \<open>calculate_diversity_metrics\<close>, for every region of the index
  and every taxonomy level, the \<open>frac\<close> and the \<open>frac_gt5\<close> values are finite
  numbers at most 1: the categories of a region's cells are among the categories of the
  whole column (\<open>count_unique_mono\<close>), and \<open>count_gt5\<close> is at most
  \<open>count_unique\<close>.
\<close>

theorem frac_columns_at_most_1:
  assumes T: "calculate_diversity_metrics obs_ccf ccf_label = Inr T"
    and reg: "reg \<in> fst ` set (trows T)"
    and l: "l \<in> set default_levels"
  shows "\<exists>r q. loc T reg (''frac_'' @ l) = Some (Fin r) \<and> r \<le> 1
             \<and> loc T reg (''frac_gt5_'' @ l) = Some (Fin q) \<and> q \<le> 1"
proof -
  from l obtain j where jl: "j < length default_levels" and lj: "default_levels ! j = l"
    unfolding in_set_conv_nth by blast
  then have j: "j < 3" "l = default_levels ! j"
    by (simp_all add: default_levels_def)
  from diversity_row [OF T reg j(1)] obtain T2 T5 v2 v5 where
    g2: "get_region_metric obs_ccf count_unique ''frac'' ccf_label default_exclude
           (Some count_unique) default_levels = Inr T2"
    and g5: "get_region_metric obs_ccf count_gt5 ''frac_gt5'' ccf_label default_exclude
           (Some count_unique) default_levels = Inr T5"
    and v2: "(reg, v2) \<in> set (trows T2)" and v5: "(reg, v5) \<in> set (trows T5)"
    and l2: "loc T reg (''frac_'' @ default_levels ! j) = Some (v2 ! j)"
    and l5: "loc T reg (''frac_gt5_'' @ default_levels ! j) = Some (v5 ! j)"
    by blast
  from frac_cell_le_1 [OF g2 v2 jl count_unique_bounded]
  obtain r where "v2 ! j = Fin r" "r \<le> 1" by blast
  moreover from frac_cell_le_1 [OF g5 v5 jl count_gt5_bounded]
  obtain q where "v5 ! j = Fin q" "q \<le> 1" by blast
  ultimately show ?thesis using l2 l5 j(2) by simp
qed


theorem frac_columns_at_most_1_witness:
  "\<exists>T. calculate_diversity_metrics regions_obs ''region'' = Inr T
      \<and> ''A'' \<in> fst ` set (trows T)
      \<and> ''cluster'' \<in> set default_levels
      \<and> (\<exists>r q. loc T ''A'' (''frac_'' @ ''cluster'') = Some (Fin r) \<and> r \<le> 1
             \<and> loc T ''A'' (''frac_gt5_'' @ ''cluster'') = Some (Fin q) \<and> q \<le> 1)"
proof -
  have c: "''region'' \<in> set (columns regions_obs)"
    by (simp add: regions_obs_def)
  have ls: "set default_levels \<subseteq> set (columns regions_obs)"
    by (simp add: regions_obs_def default_levels_def)
  from calculate_diversity_metrics_returns [OF c ls]
  obtain T where T: "calculate_diversity_metrics regions_obs ''region'' = Inr T" ..
  let ?r = "\<lambda>col. if col = ''region'' then ''A''
                               else if col = ''cluster'' then ''c1''
                               else if col = ''supertype'' then ''s1'' else ''k1''"
  have "''A'' \<in> {r ''region'' | i r. (i, r) \<in> set (rows regions_obs)}"
    unfolding mem_Collect_eq
    by (rule exI [of _ 0], rule exI [of _ ?r]) (simp add: regions_obs_def)
  moreover have "''A'' \<notin> set default_exclude"
    by (simp add: default_exclude_def)
  ultimately have reg: "''A'' \<in> fst ` set (trows T)"
    unfolding diversity_index [OF T] by (rule DiffI)
  have l: "''cluster'' \<in> set default_levels" by (simp add: default_levels_def)
  note r = frac_columns_at_most_1 [OF T reg l]
  show ?thesis
    by (rule exI [of _ T]) (intro conjI T reg l r)
qed

section \<open>Properties of the proportion aggregation\<close>

lemma region_total_pos:
  assumes "reg \<in> set (map (\<lambda>(i, r). r ccf_label) rws)"
  shows "0 < sum_list (map (\<lambda>c. length (filter (\<lambda>(i, r). r ccf_label = reg \<and> r taxonomy_level = c) rws))
                        (sort (remdups (map (\<lambda>(i, r). r taxonomy_level) rws))))"
proof -
  from assms obtain i0 r0 where ir: "(i0, r0) \<in> set rws" "r0 ccf_label = reg" by auto
  let ?n = "\<lambda>c. length (filter (\<lambda>(i, r). r ccf_label = reg \<and> r taxonomy_level = c) rws)"
  let ?cats = "sort (remdups (map (\<lambda>(i, r). r taxonomy_level) rws))"
  have "(i0, r0) \<in> set (filter (\<lambda>(i, r). r ccf_label = reg \<and> r taxonomy_level = r0 taxonomy_level) rws)"
    using ir by simp
  then have "0 < ?n (r0 taxonomy_level)"
    by (rule length_pos_if_in_set)
  moreover have "(\<lambda>(i, r). r taxonomy_level) (i0, r0) \<in> (\<lambda>(i, r). r taxonomy_level) ` set rws"
    using ir(1) by (rule imageI)
  then have "r0 taxonomy_level \<in> set ?cats"
    by simp
  then have "?n (r0 taxonomy_level) \<in> set (map ?n ?cats)"
    by simp
  then have "?n (r0 taxonomy_level) \<le> sum_list (map ?n ?cats)"
    by (rule member_le_sum_list) simp
  ultimately show ?thesis by (rule less_le_trans)
qed


lemma sum_list_filter_zero:
  fixes g :: "'b \<Rightarrow> nat"
  assumes "\<And>x. x \<in> set xs \<Longrightarrow> \<not> P x \<Longrightarrow> g x = 0"
  shows "sum_list (map g (filter P xs)) = sum_list (map g xs)"
  using assms by (induction xs) auto

lemma sum_list_move_to_other:
  fixes f :: "'b \<Rightarrow> nat"
  shows "sum_list (map (\<lambda>c. if P c then 0 else f c) xs) + sum_list (map f (filter P xs))
           = sum_list (map f xs)"
  by (induction xs) auto

lemma sum_list_divide:
  fixes h :: "'b \<Rightarrow> real"
  shows "sum_list (map (\<lambda>x. h x / d) xs) = sum_list (map h xs) / d"
  by (induction xs) (simp_all add: add_divide_distrib)

lemma fdiv_row_sums_to_1:
  fixes g :: "'b \<Rightarrow> nat"
  assumes "0 < sum_list (map g xs)"
  shows "\<exists>ps. map (\<lambda>x. fdiv (Fin (real (g x))) (Fin (real (sum_list (map g xs))))) xs = map Fin ps
            \<and> sum_list ps = 1 \<and> (\<forall>p\<in>set ps. 0 \<le> p)"
proof -
  define S where "S = real (sum_list (map g xs))"
  have S: "0 < S" using assms by (simp add: S_def)
  let ?ps = "map (\<lambda>x. real (g x) / S) xs"
  have "map (\<lambda>x. fdiv (Fin (real (g x))) (Fin S)) xs = map Fin ?ps"
    using S by simp
  moreover have "sum_list ?ps = sum_list (map (\<lambda>x. real (g x)) xs) / S"
    by (simp add: sum_list_divide comp_def)
  then have "sum_list ?ps = 1"
    using S by (simp add: S_def sum_list_of_nat [symmetric] comp_def)
  moreover have "\<forall>p\<in>set ?ps. 0 \<le> p"
    using S by auto
  ultimately show ?thesis
    unfolding S_def by blast
qed


lemma calculate_level_proportions_returns:
  assumes "{ccf_label, taxonomy_level} \<subseteq> set (columns obs)"
    and "''other'' \<notin> set (map (\<lambda>(i, r). r taxonomy_level) (rows obs))"
  shows "\<exists>T. calculate_level_proportions obs taxonomy_level ccf_label min_frac min_count = Inr T"
  using assms by (simp add: calculate_level_proportions_def Let_def)

text \<open>
  C3. In the table that \<open>calculate_level_proportions\<close> returns, with or without
  \<open>min_count\<close>, the values of every region row are finite, not negative, and their
  sum is 1. A region of the table has at least one cell, as the regions are those that
  occur in the observation table.
\<close>

theorem level_proportions_rows_sum_to_1:
  assumes T: "calculate_level_proportions obs taxonomy_level ccf_label min_frac min_count = Inr T"
    and row: "(reg, vs) \<in> set (trows T)"
  shows "\<exists>ps. vs = map Fin ps \<and> sum_list ps = 1 \<and> (\<forall>p\<in>set ps. 0 \<le> p)"
proof -
  define regions where "regions = sort (remdups (map (\<lambda>(i, r). r ccf_label) (rows obs)))"
  define cats where "cats = sort (remdups (map (\<lambda>(i, r). r taxonomy_level) (rows obs)))"
  define count where
    "count = (\<lambda>reg c. length (filter (\<lambda>(i, r). r ccf_label = reg \<and> r taxonomy_level = c)
                                             (rows obs)))"
  define to_other where
    "to_other = (\<lambda>reg c.
               case min_count of
                 Some m \<Rightarrow> int (count reg c) \<le> m
               | None \<Rightarrow> num_le (fdiv (Fin (real (count reg c)))
                                      (Fin (real (sum_list (map (count reg) cats)))))
                                (Fin min_frac))"
  define joined where
    "joined = map (\<lambda>c. (c, \<lambda>reg. if to_other reg c then 0 else count reg c)) cats
                @ [(''other'', \<lambda>reg. sum_list (map (count reg) (filter (to_other reg) cats)))]"
  define nonzero where
    "nonzero = filter (\<lambda>(c, col). \<exists>reg\<in>set regions. col reg \<noteq> 0) joined"
  have "calculate_level_proportions obs taxonomy_level ccf_label min_frac min_count =
      (if \<not> {ccf_label, taxonomy_level} \<subseteq> set (columns obs) then Inl KeyError
       else if ''other'' \<in> set cats then Inl ValueError
       else Inr \<lparr>tcolumns = map fst nonzero,
                 trows = map (\<lambda>reg. (reg, map (\<lambda>(c, col).
                                    fdiv (Fin (real (col reg)))
                                         (Fin (real (sum_list (map (\<lambda>(c, col). col reg) nonzero)))))
                                 nonzero))
              regions\<rparr>)"
    unfolding calculate_level_proportions_def Let_def regions_def cats_def count_def
      to_other_def joined_def nonzero_def ..
  with T have rws: "trows T = map (\<lambda>reg. (reg, map (\<lambda>(c, col).
                                    fdiv (Fin (real (col reg)))
                                         (Fin (real (sum_list (map (\<lambda>(c, col). col reg) nonzero)))))
                                 nonzero))
              regions"
    by (auto split: if_splits)
  from row rws have reg: "reg \<in> set regions"
    and vs: "vs = map (\<lambda>(c, col).
                                    fdiv (Fin (real (col reg)))
                                         (Fin (real (sum_list (map (\<lambda>(c, col). col reg) nonzero)))))
                                 nonzero"
    by auto
  have "sum_list (map (\<lambda>(c, col). col reg) nonzero) = sum_list (map (\<lambda>(c, col). col reg) joined)"
    unfolding nonzero_def using reg by (intro sum_list_filter_zero) auto
  also have "\<dots> = sum_list (map (\<lambda>c. if to_other reg c then 0 else count reg c) cats)
                  + sum_list (map (count reg) (filter (to_other reg) cats))"
    unfolding joined_def by (simp add: comp_def)
  also have "\<dots> = sum_list (map (count reg) cats)"
    by (rule sum_list_move_to_other)
  finally have total: "sum_list (map (\<lambda>(c, col). col reg) nonzero) = sum_list (map (count reg) cats)" .
  have "reg \<in> set (map (\<lambda>(i, r). r ccf_label) (rows obs))"
    using reg unfolding regions_def by simp
  then have "0 < sum_list (map (count reg) cats)"
    unfolding count_def cats_def by (rule region_total_pos)
  with total have pos: "0 < sum_list (map (\<lambda>(c, col). col reg) nonzero)" by simp
  from fdiv_row_sums_to_1 [of "\<lambda>(c, col). col reg" nonzero, OF pos]
  show ?thesis unfolding vs by (simp add: case_prod_unfold)
qed


theorem level_proportions_rows_sum_to_1_witness:
  "calculate_level_proportions scenario_obs ''cluster'' ''region'' (1 / 4) None
     = Inr \<lparr>tcolumns = [''c1'', ''c2'', ''other''],
            trows = [(''A'', [Fin (1 / 2), Fin (3 / 10), Fin (1 / 5)])]\<rparr>
   \<and> calculate_level_proportions scenario_obs ''cluster'' ''region'' (1 / 100) (Some 2)
     = Inr \<lparr>tcolumns = [''c1'', ''c2'', ''other''],
            trows = [(''A'', [Fin (1 / 2), Fin (3 / 10), Fin (1 / 5)])]\<rparr>
   \<and> (\<exists>ps. [Fin (1 / 2), Fin (3 / 10), Fin (1 / 5)] = map Fin ps \<and> sum_list ps = 1
            \<and> (\<forall>p\<in>set ps. 0 \<le> p))"
proof -
  let ?T = "\<lparr>tcolumns = [''c1'', ''c2'', ''other''],
            trows = [(''A'', [Fin (1 / 2), Fin (3 / 10), Fin (1 / 5)])]\<rparr>"
  have frac: "calculate_level_proportions scenario_obs ''cluster'' ''region'' (1 / 4) None = Inr ?T"
    by code_simp
  have cnt: "calculate_level_proportions scenario_obs ''cluster'' ''region'' (1 / 100) (Some 2)
      = Inr ?T"
    by code_simp
  have row: "(''A'', [Fin (1 / 2), Fin (3 / 10), Fin (1 / 5)]) \<in> set (trows ?T)"
    by simp
  note sums = level_proportions_rows_sum_to_1 [OF frac row]
    level_proportions_rows_sum_to_1 [OF cnt row]
  show ?thesis
    by (intro conjI frac cnt sums(1))
qed

text \<open>
  C4, as the code has it. With \<open>min_frac = 0.5\<close> on the region with counts
  \<open>c1: 5, c2: 3, c3: 2\<close> the fraction of \<open>c1\<close> is 0.5, which is at the threshold, so
  \<open>c1\<close> goes to \<open>other\<close> as \<open>c2\<close> and \<open>c3\<close> do: the three category columns are
  dropped and \<open>other\<close> is the only column, at proportion 1.
\<close>

theorem scenario_all_other:
  "calculate_level_proportions scenario_obs ''cluster'' ''region'' (1 / 2) None
     = Inr \<lparr>tcolumns = [''other''], trows = [(''A'', [Fin 1])]\<rparr>"
  by code_simp

text \<open>
  C4 as stated fails: the output row does not have \<open>c1\<close> at 0.5 and \<open>other\<close> at 0.5.
\<close>

theorem scenario_half_counterexample:
  "\<not> (loc (projr (calculate_level_proportions scenario_obs ''cluster'' ''region'' (1 / 2) None))
            ''A'' ''c1'' = Some (Fin (1 / 2))
       \<and> loc (projr (calculate_level_proportions scenario_obs ''cluster'' ''region'' (1 / 2) None))
            ''A'' ''other'' = Some (Fin (1 / 2)))"
  by code_simp

section \<open>Properties of the palette\<close>

lemma fallback_palette_raises:
  assumes "get_taxonomy_palette taxonomy_level = Inl ValueError"
  shows "barplot_stacked_proportions_palette get_taxonomy_palette glasbey_light
           taxonomy_level None = Inl TypeError"
  using assms by (simp add: barplot_stacked_proportions_palette_def bind_res_def)

text \<open>
  A palette that is a dictionary, given or found by the provider, gets the \<open>other\<close>
  colour.
\<close>

lemma known_palette_gets_other:
  assumes "get_taxonomy_palette taxonomy_level = Inr (PaletteDict d)"
  shows "barplot_stacked_proportions_palette get_taxonomy_palette glasbey_light
           taxonomy_level None = Inr (PaletteDict (d(''other'' \<mapsto> ''lightgrey'')))"
  using assms by (simp add: barplot_stacked_proportions_palette_def bind_res_def)

text \<open>
  C9. For a level the palette provider does not know, and no palette given, the
  \<open>ValueError\<close> is caught and \<open>glasbey_light\<close> is taken; the assignment of the
  \<open>other\<close> colour to that list then raises \<open>TypeError\<close>, so nothing is rendered.
\<close>

theorem fallback_palette_type_error:
  "barplot_stacked_proportions_palette atlas_palette [''#d60000'', ''#8c3bff'']
     ''neurotransmitter'' None = Inl TypeError"
  by (rule fallback_palette_raises) (simp add: atlas_palette_def default_levels_def)

section \<open>Properties of the local metric engine\<close>

lemma local_metric_unfold:
  assumes "calculate_local_diversity_metric kneighbors obs_ccf function metric_name n_neighbors
             levels = Inr T"
  shows "\<exists>results. length results = length (rows obs_ccf)
           \<and> trows T = zip (map fst (rows obs_ccf)) results"
proof -
  from assms obtain neighbors results where
    "sequence_res
       (map (\<lambda>i. calculate_function_locally i obs_ccf neighbors levels function)
            [0..<length (rows obs_ccf)]) = Inr results"
    and t: "trows T = zip (map fst (rows obs_ccf)) results"
    unfolding calculate_local_diversity_metric_def Let_def bind_res_def
    by (auto split: if_splits sum.splits)
  then have "map (\<lambda>i. calculate_function_locally i obs_ccf neighbors levels function)
            [0..<length (rows obs_ccf)] = map Inr results"
    by (simp add: sequence_res_eq_Inr)
  then have "length results = length (rows obs_ccf)"
    by (metis length_map length_upt minus_nat.diff_0)
  with t show ?thesis by blast
qed

text \<open>
  The table is returned when the coordinate and level columns exist, the neighbour
  search gives one list of row positions per row, and the function returns on every
  sample.
\<close>

lemma calculate_function_locally_returns:
  assumes lv: "set levels \<subseteq> set (columns obs)"
    and i: "i < length neighbors"
    and rng: "\<And>p. p \<in> set (neighbors ! i) \<Longrightarrow> p < length (rows obs)"
    and f: "\<And>x. \<exists>v. function x = Inr v"
  shows "\<exists>vs. calculate_function_locally i obs neighbors levels function = Inr vs"
proof -
  have "\<exists>sub. iloc obs (neighbors ! i) = Inr sub"
    unfolding iloc_def
  proof (rule sequence_res_returns)
    fix m
    assume "m \<in> set (map (getitem (rows obs)) (neighbors ! i))"
    then obtain p where "p \<in> set (neighbors ! i)" "m = getitem (rows obs) p" by auto
    with rng show "\<exists>v. m = Inr v" by (simp add: getitem_def)
  qed
  then obtain sub where sub: "iloc obs (neighbors ! i) = Inr sub" ..
  have "\<exists>vs. sequence_res (map (\<lambda>l. function (map (\<lambda>(i, r). r l) sub)) levels) = Inr vs"
  proof (rule sequence_res_returns)
    fix m
    assume "m \<in> set (map (\<lambda>l. function (map (\<lambda>(i, r). r l) sub)) levels)"
    then obtain l where "m = function (map (\<lambda>(i, r). r l) sub)" by auto
    with f show "\<exists>v. m = Inr v" by simp
  qed
  with i lv sub show ?thesis
    by (simp add: calculate_function_locally_def bind_res_def getitem_def)
qed

lemma local_metric_returns:
  assumes xyz: "set [''x_ccf'', ''y_ccf'', ''z_ccf''] \<subseteq> set (columns obs_ccf)"
    and lv: "set levels \<subseteq> set (columns obs_ccf)"
    and knn: "kneighbors (map (\<lambda>(i, r). map r [''x_ccf'', ''y_ccf'', ''z_ccf'']) (rows obs_ccf))
                n_neighbors = Inr neighbors"
    and len: "length neighbors = length (rows obs_ccf)"
    and rng: "\<And>ps p. ps \<in> set neighbors \<Longrightarrow> p \<in> set ps \<Longrightarrow> p < length (rows obs_ccf)"
    and f: "\<And>x. \<exists>v. function x = Inr v"
  shows "\<exists>T. calculate_local_diversity_metric kneighbors obs_ccf function metric_name
               n_neighbors levels = Inr T"
proof -
  have "\<exists>results. sequence_res
          (map (\<lambda>i. calculate_function_locally i obs_ccf neighbors levels function)
               [0..<length (rows obs_ccf)]) = Inr results"
  proof (rule sequence_res_returns)
    fix m
    assume "m \<in> set (map (\<lambda>i. calculate_function_locally i obs_ccf neighbors levels function)
               [0..<length (rows obs_ccf)])"
    then obtain i where i: "i < length (rows obs_ccf)"
      and m: "m = calculate_function_locally i obs_ccf neighbors levels function"
      by auto
    from i len have il: "i < length neighbors" by simp
    then have "neighbors ! i \<in> set neighbors" by simp
    then have "\<And>p. p \<in> set (neighbors ! i) \<Longrightarrow> p < length (rows obs_ccf)"
      by (rule rng)
    from calculate_function_locally_returns [OF lv il this f] m
    show "\<exists>v. m = Inr v" by simp
  qed
  with xyz knn show ?thesis
    by (auto simp: calculate_local_diversity_metric_def bind_res_def)
qed

text \<open>
  C7. The table that \<open>calculate_local_diversity_metric\<close> returns has the index of the
  observation table, label by label in the same order, and so as many rows.
\<close>

theorem local_metric_index:
  assumes "calculate_local_diversity_metric kneighbors obs_ccf function metric_name n_neighbors
             levels = Inr T"
  shows "map fst (trows T) = map fst (rows obs_ccf) \<and> length (trows T) = length (rows obs_ccf)"
proof -
  from local_metric_unfold [OF assms] obtain results where
    "length results = length (rows obs_ccf)" "trows T = zip (map fst (rows obs_ccf)) results"
    by blast
  then show ?thesis by simp
qed

theorem local_metric_index_witness:
  "calculate_local_diversity_metric index_order_neighbors local_obs count_unique ''count'' 2
       [''cluster'']
     = Inr \<lparr>tcolumns = [''local_count_cluster''],
            trows = [(10, [Fin 2]), (11, [Fin 2]), (12, [Fin 1])]\<rparr>
   \<and> map fst [(10 :: nat, [Fin 2]), (11, [Fin 2]), (12, [Fin 1])] = map fst (rows local_obs)
   \<and> length [(10 :: nat, [Fin 2]), (11, [Fin 2]), (12, [Fin 1])] = length (rows local_obs)"
proof -
  have h: "calculate_local_diversity_metric index_order_neighbors local_obs count_unique ''count'' 2
       [''cluster'']
     = Inr \<lparr>tcolumns = [''local_count_cluster''],
            trows = [(10, [Fin 2]), (11, [Fin 2]), (12, [Fin 1])]\<rparr>"
    by code_simp
  note r = local_metric_index [OF h, unfolded table.select_convs]
  show ?thesis
    by (intro conjI h r [THEN conjunct1] r [THEN conjunct2])
qed

end
